theory Spec2Isabelle
  imports Main "HOL-Library.Sublist"
begin

section \<open>Strings and regular expressions of the host language\<close>

text \<open>
  A string is a list of code units; the model covers the units U+0000 to U+00FF
  (type \<open>char\<close>). The string methods the component calls are modelled on that range.
\<close>

definition code :: "char \<Rightarrow> nat" where
  "code c = of_char c"

text \<open>\<^verbatim>\<open>String.prototype.toLowerCase\<close>: A-Z and the upper-case letters of Latin-1.\<close>

definition lowerChar :: "char \<Rightarrow> char" where
  "lowerChar c =
     (if (65 \<le> code c \<and> code c \<le> 90) \<or> (192 \<le> code c \<and> code c \<le> 222 \<and> code c \<noteq> 215)
      then char_of (code c + 32) else c)"

definition toLowerCase :: "string \<Rightarrow> string" where
  "toLowerCase s = map lowerChar s"

text \<open>\<^verbatim>\<open>String.prototype.trim\<close>: white space and line terminators at both ends
  (TAB, LF, VT, FF, CR, SP, NBSP in the modelled range).\<close>

definition isWhiteSpace :: "char \<Rightarrow> bool" where
  "isWhiteSpace c = (code c \<in> {9, 10, 11, 12, 13, 32, 160})"

definition trim :: "string \<Rightarrow> string" where
  "trim s = rev (dropWhile isWhiteSpace (rev (dropWhile isWhiteSpace s)))"

definition startsWith :: "string \<Rightarrow> string \<Rightarrow> bool" where
  "startsWith s p = prefix p s"

definition endsWith :: "string \<Rightarrow> string \<Rightarrow> bool" where
  "endsWith s p = prefix (rev p) (rev s)"

text \<open>\<^verbatim>\<open>String.prototype.includes\<close>: \<open>p\<close> occurs at some position of \<open>s\<close>.\<close>

fun includes_str :: "string \<Rightarrow> string \<Rightarrow> bool" where
  "includes_str [] p = (p = [])"
| "includes_str (c # cs) p = (prefix p (c # cs) \<or> includes_str cs p)"

text \<open>
  The regular expressions of the component use literals, character classes, sequence,
  alternation, \<open>?\<close> and bounded or unbounded repetition only, so \<^verbatim>\<open>test\<close> decides
  membership in a regular language. \<open>LitI\<close> is a literal under the \<open>i\<close> flag.
\<close>

datatype rx =
    Never
  | Empty
  | Lit char
  | LitI char
  | Cls "(char \<times> char) list"
  | Cat rx rx
  | Or rx rx
  | Many rx

definition opt :: "rx \<Rightarrow> rx" where
  "opt r = Or r Empty"

definition plus_rx :: "rx \<Rightarrow> rx" where
  "plus_rx r = Cat r (Many r)"

definition times3 :: "rx \<Rightarrow> rx" where
  "times3 r = Cat r (Cat r r)"

text \<open>Canonicalize of the \<open>i\<close> flag without the \<open>u\<close> flag: the upper-case form; a unit
  outside ASCII never becomes an ASCII one, so for an ASCII literal only a-z matter.\<close>

definition canonicalize :: "char \<Rightarrow> char" where
  "canonicalize c = (if 97 \<le> code c \<and> code c \<le> 122 then char_of (code c - 32) else c)"

definition inCls :: "char \<Rightarrow> (char \<times> char) list \<Rightarrow> bool" where
  "inCls c rs = (\<exists>(lo, hi) \<in> set rs. code lo \<le> code c \<and> code c \<le> code hi)"

fun canEmpty :: "rx \<Rightarrow> bool" where
  "canEmpty Never = False"
| "canEmpty Empty = True"
| "canEmpty (Lit d) = False"
| "canEmpty (LitI d) = False"
| "canEmpty (Cls rs) = False"
| "canEmpty (Cat r s) = (canEmpty r \<and> canEmpty s)"
| "canEmpty (Or r s) = (canEmpty r \<or> canEmpty s)"
| "canEmpty (Many r) = True"

text \<open>\<open>after c r\<close> matches what \<open>r\<close> matches after it has read the unit \<open>c\<close>.\<close>

fun after :: "char \<Rightarrow> rx \<Rightarrow> rx" where
  "after c Never = Never"
| "after c Empty = Never"
| "after c (Lit d) = (if c = d then Empty else Never)"
| "after c (LitI d) = (if canonicalize c = canonicalize d then Empty else Never)"
| "after c (Cls rs) = (if inCls c rs then Empty else Never)"
| "after c (Cat r s) =
     (if canEmpty r then Or (Cat (after c r) s) (after c s) else Cat (after c r) s)"
| "after c (Or r s) = Or (after c r) (after c s)"
| "after c (Many r) = Cat (after c r) (Many r)"

text \<open>\<^verbatim>\<open>/^r$/.test(s)\<close>: the whole of \<open>s\<close> matches \<open>r\<close>.\<close>

fun test_whole :: "rx \<Rightarrow> string \<Rightarrow> bool" where
  "test_whole r [] = canEmpty r"
| "test_whole r (c # cs) = test_whole (after c r) cs"

text \<open>\<^verbatim>\<open>/^r/.test(s)\<close>: some prefix of \<open>s\<close> matches \<open>r\<close>.\<close>

fun test_start :: "rx \<Rightarrow> string \<Rightarrow> bool" where
  "test_start r [] = canEmpty r"
| "test_start r (c # cs) = (canEmpty r \<or> test_start (after c r) cs)"

text \<open>The language of an expression, against which the matcher is verified.\<close>

inductive_set star :: "string set \<Rightarrow> string set" for A :: "string set" where
  star_nil: "[] \<in> star A"
| star_app: "u \<in> A \<Longrightarrow> v \<in> star A \<Longrightarrow> u @ v \<in> star A"

fun lang :: "rx \<Rightarrow> string set" where
  "lang Never = {}"
| "lang Empty = {[]}"
| "lang (Lit d) = {[d]}"
| "lang (LitI d) = {[c] | c. canonicalize c = canonicalize d}"
| "lang (Cls rs) = {[c] | c. inCls c rs}"
| "lang (Cat r s) = {u @ v | u v. u \<in> lang r \<and> v \<in> lang s}"
| "lang (Or r s) = lang r \<union> lang s"
| "lang (Many r) = star (lang r)"

section \<open>The URL normalizer (src/app/page.tsx, normalizeUrl)\<close>

text \<open>
  \<^verbatim>\<open>new URL(s)\<close> is the platform's URL parser, not code of the application: the
  normalizer takes it as its first argument. \<open>None\<close> is the \<^verbatim>\<open>TypeError\<close> it throws;
  the record holds the three things the normalizer reads from the parsed object, the
  getters \<^verbatim>\<open>protocol\<close> and \<^verbatim>\<open>hostname\<close> and the result of \<^verbatim>\<open>toString()\<close>.
\<close>

record URL =
  protocol :: string
  hostname :: string
  href :: string

type_synonym url_parser = "string \<Rightarrow> URL option"

text \<open>\<^verbatim>\<open>/^https?:\/\//i\<close>\<close>

definition schemeRx :: rx where
  "schemeRx =
     Cat (LitI CHR ''h'') (Cat (LitI CHR ''t'') (Cat (LitI CHR ''t'') (Cat (LitI CHR ''p'')
       (Cat (opt (LitI CHR ''s'')) (Cat (LitI CHR '':'') (Cat (LitI CHR ''/'') (LitI CHR ''/'')))))))"

text \<open>\<^verbatim>\<open>\d\<close>\<close>

definition digit :: rx where
  "digit = Cls [(CHR ''0'', CHR ''9'')]"

text \<open>\<^verbatim>\<open>(25[0-5]|2[0-4]\d|1?\d?\d)\<close>\<close>

definition octetRx :: rx where
  "octetRx =
     Or (Cat (Lit CHR ''2'') (Cat (Lit CHR ''5'') (Cls [(CHR ''0'', CHR ''5'')])))
    (Or (Cat (Lit CHR ''2'') (Cat (Cls [(CHR ''0'', CHR ''4'')]) digit))
        (Cat (opt (Lit CHR ''1'')) (Cat (opt digit) digit)))"

text \<open>\<^verbatim>\<open>/^(25[0-5]|2[0-4]\d|1?\d?\d)(\.(25[0-5]|2[0-4]\d|1?\d?\d)){3}$/\<close>\<close>

definition ipv4Rx :: rx where
  "ipv4Rx = Cat octetRx (times3 (Cat (Lit CHR ''.'') octetRx))"

text \<open>\<^verbatim>\<open>/^[a-z0-9.-]+$/\<close>\<close>

definition domainRx :: rx where
  "domainRx =
     plus_rx (Cls [(CHR ''a'', CHR ''z''), (CHR ''0'', CHR ''9''), (CHR ''.'', CHR ''.''),
                   (CHR ''-'', CHR ''-'')])"

definition normalizeUrl :: "url_parser \<Rightarrow> string \<Rightarrow> string option" where
  "normalizeUrl newURL input =
     (let withProtocol = (if test_start schemeRx input then input else ''https://'' @ input)
      in case newURL withProtocol of
           None \<Rightarrow> None
         | Some parsed \<Rightarrow>
             (let hostname' = toLowerCase (hostname parsed);
                  isIpv4 = test_whole ipv4Rx hostname';
                  isLocalhost = (hostname' = ''localhost'');
                  hasValidDomainPattern =
                    (test_whole domainRx hostname' \<and> \<not> startsWith hostname' ''.'' \<and>
                     \<not> endsWith hostname' ''.'' \<and> \<not> includes_str hostname' ''..'');
                  isHttpProtocol = (protocol parsed = ''http:'' \<or> protocol parsed = ''https:'');
                  isValidHost =
                    (isLocalhost \<or> isIpv4 \<or> (hasValidDomainPattern \<and> includes_str hostname' ''.''))
              in if \<not> isHttpProtocol \<or> \<not> isValidHost then None
                 else Some (href parsed)))"

section \<open>The normalizer as the specification words it\<close>

definition isDigitChar :: "char \<Rightarrow> bool" where
  "isDigitChar c = (48 \<le> code c \<and> code c \<le> 57)"

definition isLowerChar :: "char \<Rightarrow> bool" where
  "isLowerChar c = (97 \<le> code c \<and> code c \<le> 122)"

text \<open>Step 1: the raw text already starts with the scheme, whatever the case of its letters.\<close>

definition spec_has_scheme :: "string \<Rightarrow> bool" where
  "spec_has_scheme raw =
     (prefix ''http://'' (toLowerCase raw) \<or> prefix ''https://'' (toLowerCase raw))"

text \<open>A dotted IPv4 address: four parts between dots, each a decimal number from 0 to 255.\<close>

fun splitOn :: "char \<Rightarrow> string \<Rightarrow> string list" where
  "splitOn d [] = [[]]"
| "splitOn d (c # cs) =
     (if c = d then [] # splitOn d cs
      else (case splitOn d cs of [] \<Rightarrow> [[c]] | p # ps \<Rightarrow> (c # p) # ps))"

definition decimal :: "string \<Rightarrow> nat" where
  "decimal s = foldl (\<lambda>n c. 10 * n + (code c - 48)) 0 s"

definition spec_octet :: "string \<Rightarrow> bool" where
  "spec_octet p = (p \<noteq> [] \<and> (\<forall>c \<in> set p. isDigitChar c) \<and> decimal p \<le> 255)"

definition spec_ipv4 :: "string \<Rightarrow> bool" where
  "spec_ipv4 h =
     (let parts = splitOn CHR ''.'' h in length parts = 4 \<and> (\<forall>p \<in> set parts. spec_octet p))"

text \<open>Only lower-case letters, digits, hyphens and dots; no dot at either end; no two dots
  in a row; at least one dot.\<close>

definition spec_domain :: "string \<Rightarrow> bool" where
  "spec_domain h =
     ((\<forall>c \<in> set h. isLowerChar c \<or> isDigitChar c \<or> c = CHR ''-'' \<or> c = CHR ''.'') \<and>
      \<not> prefix ''.'' h \<and> \<not> suffix ''.'' h \<and> \<not> sublist ''..'' h \<and> CHR ''.'' \<in> set h)"

definition spec_valid_host :: "string \<Rightarrow> bool" where
  "spec_valid_host h = (h = ''localhost'' \<or> spec_ipv4 h \<or> spec_domain h)"

text \<open>Steps 1 to 6 of the algorithm, over the same parsing primitive.\<close>

definition spec_normalize :: "url_parser \<Rightarrow> string \<Rightarrow> string option" where
  "spec_normalize parse raw =
     (let s = (if spec_has_scheme raw then raw else ''https://'' @ raw)
      in case parse s of
           None \<Rightarrow> None
         | Some u \<Rightarrow>
             if spec_valid_host (toLowerCase (hostname u)) \<and>
                (protocol u = ''http:'' \<or> protocol u = ''https:'')
             then Some (href u) else None)"

text \<open>
  Modelled from the spec: the URL-parsing primitive is outside the repository; section 4.1
  requires it to be deterministic and idempotent. For a URL of scheme http or https that
  means: its serialisation starts with the scheme and \<open>//\<close>, and parsing the serialisation
  gives the same URL again.
\<close>

definition reparses :: "url_parser \<Rightarrow> bool" where
  "reparses newURL =
     (\<forall>s u. newURL s = Some u \<and> (protocol u = ''http:'' \<or> protocol u = ''https:'') \<longrightarrow>
        newURL (href u) = Some u \<and> prefix (protocol u @ ''//'') (href u))"

text \<open>A parser for the examples: what the platform's parser answers on the strings the
  examples of the specification lead to, and on its own serialisations of them.\<close>

definition sample_parser :: url_parser where
  "sample_parser s =
     (if s = ''https://example.com'' \<or> s = ''https://example.com/''
        then Some \<lparr>protocol = ''https:'', hostname = ''example.com'', href = ''https://example.com/''\<rparr>
      else if s = ''https://ftp://example.com'' \<or> s = ''https://ftp//example.com''
        then Some \<lparr>protocol = ''https:'', hostname = ''ftp'', href = ''https://ftp//example.com''\<rparr>
      else if s = ''http://..bad..'' \<or> s = ''http://..bad../''
        then Some \<lparr>protocol = ''http:'', hostname = ''..bad..'', href = ''http://..bad../''\<rparr>
      else if s = ''https://192.168.1.1'' \<or> s = ''https://192.168.1.1/''
        then Some \<lparr>protocol = ''https:'', hostname = ''192.168.1.1'', href = ''https://192.168.1.1/''\<rparr>
      else if s = ''https://localhost:3000'' \<or> s = ''https://localhost:3000/''
        then Some \<lparr>protocol = ''https:'', hostname = ''localhost'', href = ''https://localhost:3000/''\<rparr>
      else None)"

section \<open>Auxiliary notions of the proofs about the normalizer\<close>

definition isHostChar :: "char \<Rightarrow> bool" where
  "isHostChar c = (isLowerChar c \<or> isDigitChar c \<or> c = CHR ''-'' \<or> c = CHR ''.'')"

definition digits :: "string \<Rightarrow> bool" where
  "digits s = (s \<noteq> [] \<and> (\<forall>c \<in> set s. isDigitChar c))"

fun join :: "char \<Rightarrow> string list \<Rightarrow> string" where
  "join d [] = []"
| "join d [p] = p"
| "join d (p # q # ps) = p @ d # join d (q # ps)"

text \<open>The host test of \<open>normalizeUrl\<close>, named.\<close>

definition host_accepted :: "string \<Rightarrow> bool" where
  "host_accepted h =
     (h = ''localhost'' \<or> test_whole ipv4Rx h \<or>
      ((test_whole domainRx h \<and> \<not> startsWith h ''.'' \<and> \<not> endsWith h ''.'' \<and>
        \<not> includes_str h ''..'') \<and> includes_str h ''.''))"

section \<open>The client singleton (src/lib/supabase/client.ts)\<close>

text \<open>
  A client object is what \<^verbatim>\<open>createClient(url, key)\<close> of the library returns; \<open>object_id\<close> is
  its object identity, so that two constructions with the same arguments are two objects.
\<close>

record client =
  client_url :: string
  client_key :: string
  object_id :: nat

text \<open>The module-level variables: the two environment values (a string or
  \<^verbatim>\<open>undefined\<close>), \<^verbatim>\<open>browserClient\<close>, and the number of objects constructed so far.\<close>

record module_state =
  supabaseUrl :: "string option"
  supabaseAnonKey :: "string option"
  browserClient :: "client option"
  constructed :: nat

text \<open>\<^verbatim>\<open>!v\<close> for a value that is a string or \<^verbatim>\<open>undefined\<close>.\<close>

definition falsy :: "string option \<Rightarrow> bool" where
  "falsy v = (case v of None \<Rightarrow> True | Some s \<Rightarrow> s = [])"

definition hasSupabaseConfig :: "module_state \<Rightarrow> bool" where
  "hasSupabaseConfig m = (\<not> falsy (supabaseUrl m) \<and> \<not> falsy (supabaseAnonKey m))"

definition getSupabaseClient :: "module_state \<Rightarrow> client option \<times> module_state" where
  "getSupabaseClient m =
     (case (supabaseUrl m, supabaseAnonKey m) of
        (Some u, Some k) \<Rightarrow>
          if u = [] \<or> k = [] then (None, m)
          else (case browserClient m of
                  Some c \<Rightarrow> (Some c, m)
                | None \<Rightarrow>
                    (let c = \<lparr>client_url = u, client_key = k, object_id = constructed m\<rparr>
                     in (Some c, m\<lparr>browserClient := Some c, constructed := Suc (constructed m)\<rparr>)))
      | _ \<Rightarrow> (None, m))"

text \<open>\<open>n\<close> calls in a row: the values returned, and the module afterwards.\<close>

fun calls_of :: "nat \<Rightarrow> module_state \<Rightarrow> client option list \<times> module_state" where
  "calls_of 0 m = ([], m)"
| "calls_of (Suc n) m =
     (let (r, m') = getSupabaseClient m; (rs, m'') = calls_of n m' in (r # rs, m''))"

section \<open>The page component (src/app/page.tsx, Home)\<close>

record user =
  id' :: string
  email :: string

record session =
  user :: user
  access_token :: string

record Bookmark =
  bm_id :: string
  bm_title :: string
  bm_url :: string
  created_at :: string

text \<open>The calls the component makes on its collaborators: the three queries on the table
  \<open>bookmarks\<close>, the realtime channel (the number is the channel object), and the auth calls.\<close>

datatype call =
    StorageSelect string
  | StorageInsert string string string
  | StorageDelete string
  | RealtimeSubscribe nat string
  | RealtimeRemove nat
  | AuthGetSession
  | AuthListen
  | AuthUnlisten
  | AuthSignOut
  | AuthSignIn

text \<open>A channel registered with the realtime client: its object, the user id its filter
  and its callbacks were created with, and whether the transport has reported it
  \<^verbatim>\<open>SUBSCRIBED\<close>.\<close>

record chan =
  handle :: nat
  owner :: string
  joined :: bool

text \<open>
  The state of a mounted component: the client of \<^verbatim>\<open>useMemo\<close>, the eight \<^verbatim>\<open>useState\<close>
  cells, and what lies outside the function body: whether the component is mounted, the
  channel held by the cleanup closure of the subscription effect, the channels of the
  realtime client, and the next channel object.
\<close>

record state =
  supabase :: "client option"
  session :: "session option"
  bookmarks :: "Bookmark list"
  title :: string
  url :: string
  loadingBookmarks :: bool
  addingBookmark :: bool
  deletingId :: "string option"
  error :: "string option"
  mounted :: bool
  channel :: "nat option"
  realtime :: "chan list"
  nextChannel :: nat

definition msg_config :: string where
  "msg_config = ''Missing Supabase config. Set NEXT_PUBLIC_SUPABASE_URL and NEXT_PUBLIC_SUPABASE_ANON_KEY.''"

definition msg_login :: string where
  "msg_login = ''You must be logged in to add a bookmark.''"

definition msg_invalid :: string where
  "msg_invalid = ''Please provide a title and a valid URL.''"

text \<open>\<^verbatim>\<open>session?.user?.id\<close>\<close>

definition userId :: "state \<Rightarrow> string option" where
  "userId s = (case session s of None \<Rightarrow> None | Some se \<Rightarrow> Some (id' (user se)))"

text \<open>\<^verbatim>\<open>loadBookmarks\<close> up to its \<^verbatim>\<open>await\<close>, and its continuation on the answer of the query
  (an error message, or the rows, which may be \<^verbatim>\<open>null\<close>).\<close>

definition loadBookmarks :: "state \<Rightarrow> string \<Rightarrow> state \<times> call list" where
  "loadBookmarks s uid =
     (if supabase s = None then (s, [])
      else (s\<lparr>loadingBookmarks := True\<rparr>, [StorageSelect uid]))"

definition loadBookmarks_done :: "state \<Rightarrow> string + Bookmark list option \<Rightarrow> state" where
  "loadBookmarks_done s answer =
     (case answer of
        Inl queryError \<Rightarrow> s\<lparr>error := Some queryError, loadingBookmarks := False\<rparr>
      | Inr data \<Rightarrow>
          s\<lparr>bookmarks := (case data of None \<Rightarrow> [] | Some rows \<Rightarrow> rows),
            loadingBookmarks := False\<rparr>)"

text \<open>The subscription effect: its body, and the cleanup function it returns.\<close>

definition subscribe_effect :: "state \<Rightarrow> state \<times> call list" where
  "subscribe_effect s =
     (if supabase s = None then (s, [])
      else (case userId s of
              None \<Rightarrow> (s, [])
            | Some uid \<Rightarrow>
                if uid = [] then (s, [])
                else (s\<lparr>channel := Some (nextChannel s),
                        realtime := realtime s @
                          [\<lparr>handle = nextChannel s, owner = uid, joined = False\<rparr>],
                        nextChannel := Suc (nextChannel s)\<rparr>,
                      [RealtimeSubscribe (nextChannel s) uid])))"

definition subscribe_cleanup :: "state \<Rightarrow> state \<times> call list" where
  "subscribe_cleanup s =
     (case channel s of
        None \<Rightarrow> (s, [])
      | Some n \<Rightarrow>
          (s\<lparr>channel := None, realtime := filter (\<lambda>c. handle c \<noteq> n) (realtime s)\<rparr>,
           [RealtimeRemove n]))"

text \<open>
  After a state update the component renders again, and an effect whose dependencies
  changed runs: first the cleanup of its last run, then its body. Of the dependencies
  \<^verbatim>\<open>[loadBookmarks, supabase, userId]\<close> only \<^verbatim>\<open>userId\<close> ever changes.
\<close>

definition rerender :: "state \<Rightarrow> state \<Rightarrow> state \<times> call list" where
  "rerender old s =
     (if userId s = userId old then (s, [])
      else (let (s1, cs1) = subscribe_cleanup s; (s2, cs2) = subscribe_effect s1
            in (s2, cs1 @ cs2)))"

text \<open>The auth listener and the continuation of \<^verbatim>\<open>setInitialSession\<close>.\<close>

definition onAuthStateChange :: "state \<Rightarrow> session option \<Rightarrow> state \<times> call list" where
  "onAuthStateChange s currentSession = rerender s (s\<lparr>session := currentSession, error := None\<rparr>)"

definition setInitialSession_done :: "state \<Rightarrow> session option \<Rightarrow> state \<times> call list" where
  "setInitialSession_done s currentSession = rerender s (s\<lparr>session := currentSession\<rparr>)"

text \<open>The callbacks of a channel: both call \<^verbatim>\<open>loadBookmarks\<close> with the user id the
  channel was created with. The transport calls them for a registered channel only.\<close>

definition on_status :: "state \<Rightarrow> nat \<Rightarrow> string \<Rightarrow> state \<times> call list" where
  "on_status s n status =
     (case find (\<lambda>c. handle c = n) (realtime s) of
        None \<Rightarrow> (s, [])
      | Some c \<Rightarrow>
          if status = ''SUBSCRIBED''
          then loadBookmarks
                 (s\<lparr>realtime := map (\<lambda>c. if handle c = n then c\<lparr>joined := True\<rparr> else c) (realtime s)\<rparr>)
                 (owner c)
          else (s, []))"

datatype change = INSERT | UPDATE | DELETE

definition on_change :: "state \<Rightarrow> nat \<Rightarrow> change \<Rightarrow> state \<times> call list" where
  "on_change s n payload =
     (case find (\<lambda>c. handle c = n) (realtime s) of
        None \<Rightarrow> (s, [])
      | Some c \<Rightarrow> loadBookmarks s (owner c))"

definition signInWithGoogle :: "state \<Rightarrow> state \<times> call list" where
  "signInWithGoogle s =
     (if supabase s = None then (s\<lparr>error := Some msg_config\<rparr>, [])
      else (s\<lparr>error := None\<rparr>, [AuthSignIn]))"

definition signInWithGoogle_done :: "state \<Rightarrow> string option \<Rightarrow> state" where
  "signInWithGoogle_done s signInError =
     (case signInError of None \<Rightarrow> s | Some m \<Rightarrow> s\<lparr>error := Some m\<rparr>)"

definition signOut :: "state \<Rightarrow> state \<times> call list" where
  "signOut s =
     (if supabase s = None then (s, [])
      else (s\<lparr>error := None\<rparr>, [AuthSignOut]))"

definition signOut_done :: "state \<Rightarrow> string option \<Rightarrow> state" where
  "signOut_done s signOutError =
     (case signOutError of
        Some m \<Rightarrow> s\<lparr>error := Some m\<rparr>
      | None \<Rightarrow> s\<lparr>bookmarks := []\<rparr>)"

definition addBookmark :: "url_parser \<Rightarrow> state \<Rightarrow> state \<times> call list" where
  "addBookmark newURL s =
     (if supabase s = None then (s\<lparr>error := Some msg_config\<rparr>, [])
      else (case session s of
              None \<Rightarrow> (s\<lparr>error := Some msg_login\<rparr>, [])
            | Some se \<Rightarrow>
                (let cleanTitle = trim (title s);
                     cleanUrl = normalizeUrl newURL (trim (url s))
                 in case cleanUrl of
                      None \<Rightarrow> (s\<lparr>error := Some msg_invalid\<rparr>, [])
                    | Some u \<Rightarrow>
                        if cleanTitle = [] \<or> u = [] then (s\<lparr>error := Some msg_invalid\<rparr>, [])
                        else (s\<lparr>error := None, addingBookmark := True\<rparr>,
                              [StorageInsert cleanTitle u (id' (user se))]))))"

definition addBookmark_done :: "state \<Rightarrow> string option \<Rightarrow> state" where
  "addBookmark_done s insertError =
     (case insertError of
        Some m \<Rightarrow> s\<lparr>addingBookmark := False, error := Some m\<rparr>
      | None \<Rightarrow> s\<lparr>addingBookmark := False, title := [], url := []\<rparr>)"

definition deleteBookmark :: "state \<Rightarrow> string \<Rightarrow> state \<times> call list" where
  "deleteBookmark s i =
     (if supabase s = None then (s, [])
      else (s\<lparr>error := None, deletingId := Some i\<rparr>, [StorageDelete i]))"

definition deleteBookmark_done :: "state \<Rightarrow> string option \<Rightarrow> state" where
  "deleteBookmark_done s deleteError =
     (case deleteError of
        None \<Rightarrow> s\<lparr>deletingId := None\<rparr>
      | Some m \<Rightarrow> s\<lparr>deletingId := None, error := Some m\<rparr>)"

text \<open>Unmounting runs the cleanups of both effects.\<close>

definition unmount :: "state \<Rightarrow> state \<times> call list" where
  "unmount s =
     (let (s1, cs1) = subscribe_cleanup s
      in (s1\<lparr>mounted := False\<rparr>, cs1 @ (if supabase s = None then [] else [AuthUnlisten])))"

text \<open>The first render and the first run of the effects.\<close>

definition mount :: "client option \<Rightarrow> state \<times> call list" where
  "mount c =
     (\<lparr>supabase = c, session = None, bookmarks = [], title = [], url = [],
       loadingBookmarks = False, addingBookmark = False, deletingId = None, error = None,
       mounted = True, channel = None, realtime = [], nextChannel = 0\<rparr>,
      if c = None then [] else [AuthGetSession, AuthListen])"

text \<open>
  What can happen to a mounted component: a callback of a collaborator, the answer to a
  call it awaits, or an action of the user. The callbacks of the auth client and of a
  channel exist only when there is a client. After unmounting nothing changes any more.
\<close>

datatype event =
    AuthStateChange "session option"
  | InitialSession "session option"
  | Status nat string
  | Changed nat change
  | Loaded "string + Bookmark list option"
  | ClickSignIn
  | SignedIn "string option"
  | ClickSignOut
  | SignedOut "string option"
  | TypeTitle string
  | TypeUrl string
  | Submit
  | Inserted "string option"
  | ClickDelete string
  | Deleted "string option"
  | Unmount

fun handle_event :: "url_parser \<Rightarrow> state \<Rightarrow> event \<Rightarrow> state \<times> call list" where
  "handle_event newURL s (AuthStateChange cs) =
     (if supabase s = None then (s, []) else onAuthStateChange s cs)"
| "handle_event newURL s (InitialSession cs) =
     (if supabase s = None then (s, []) else setInitialSession_done s cs)"
| "handle_event newURL s (Status n st) = on_status s n st"
| "handle_event newURL s (Changed n payload) = on_change s n payload"
| "handle_event newURL s (Loaded answer) = (loadBookmarks_done s answer, [])"
| "handle_event newURL s ClickSignIn = signInWithGoogle s"
| "handle_event newURL s (SignedIn e) = (signInWithGoogle_done s e, [])"
| "handle_event newURL s ClickSignOut = signOut s"
| "handle_event newURL s (SignedOut e) = (signOut_done s e, [])"
| "handle_event newURL s (TypeTitle t) = (s\<lparr>title := t\<rparr>, [])"
| "handle_event newURL s (TypeUrl t) = (s\<lparr>url := t\<rparr>, [])"
| "handle_event newURL s Submit = addBookmark newURL s"
| "handle_event newURL s (Inserted e) = (addBookmark_done s e, [])"
| "handle_event newURL s (ClickDelete i) = deleteBookmark s i"
| "handle_event newURL s (Deleted e) = (deleteBookmark_done s e, [])"
| "handle_event newURL s Unmount = unmount s"

definition step :: "url_parser \<Rightarrow> state \<Rightarrow> event \<Rightarrow> state \<times> call list" where
  "step newURL s e = (if mounted s then handle_event newURL s e else (s, []))"

fun run :: "url_parser \<Rightarrow> state \<Rightarrow> event list \<Rightarrow> state" where
  "run newURL s [] = s"
| "run newURL s (e # es) = run newURL (fst (step newURL s e)) es"

text \<open>The states a component with a client can be in.\<close>

definition reachable :: "url_parser \<Rightarrow> client option \<Rightarrow> state \<Rightarrow> bool" where
  "reachable newURL c s = (\<exists>es. s = run newURL (fst (mount c)) es)"

text \<open>The subscriber of the specification, read off the channels of the realtime client.\<close>

datatype subscriber = Detached | Attaching string | Attached string

definition subscriber_state :: "state \<Rightarrow> subscriber" where
  "subscriber_state s =
     (case realtime s of
        [] \<Rightarrow> Detached
      | c # cs \<Rightarrow> if joined c then Attached (owner c) else Attaching (owner c))"

text \<open>What every reachable state satisfies: the realtime client holds exactly the channel of
  the cleanup closure, created for the user id of the session.\<close>

definition consistent :: "state \<Rightarrow> bool" where
  "consistent s =
     (case channel s of
        None \<Rightarrow> realtime s = []
      | Some n \<Rightarrow>
          mounted s \<and> supabase s \<noteq> None \<and> n < nextChannel s \<and>
          (\<exists>uid j. userId s = Some uid \<and> uid \<noteq> [] \<and>
                   realtime s = [\<lparr>handle = n, owner = uid, joined = j\<rparr>]))"

section \<open>The matcher decides the language\<close>

lemma canEmpty_lang: "canEmpty r \<longleftrightarrow> [] \<in> lang r"
  by (induction r) (auto intro: star.intros)

lemma star_Cons_iff:
  "c # w \<in> star A \<longleftrightarrow> (\<exists>u v. w = u @ v \<and> c # u \<in> A \<and> v \<in> star A)"
proof
  assume cw: "c # w \<in> star A"
  have gen: "x \<in> star A \<Longrightarrow> x = c # w \<Longrightarrow> \<exists>u v. w = u @ v \<and> c # u \<in> A \<and> v \<in> star A" for x
  proof (induction arbitrary: w rule: star.induct)
    case star_nil
    then show ?case by simp
  next
    case (star_app u v)
    show ?case
    proof (cases u)
      case Nil
      with star_app show ?thesis by simp
    next
      case (Cons a u')
      with star_app show ?thesis by auto
    qed
  qed
  from gen[OF cw] show "\<exists>u v. w = u @ v \<and> c # u \<in> A \<and> v \<in> star A" by simp
next
  assume "\<exists>u v. w = u @ v \<and> c # u \<in> A \<and> v \<in> star A"
  then obtain u v where "w = u @ v" "c # u \<in> A" "v \<in> star A" by blast
  then show "c # w \<in> star A" using star_app[of "c # u" A v] by simp
qed

lemma lang_after: "lang (after c r) = {w. c # w \<in> lang r}"
proof (induction r)
  case (Cat r s)
  then show ?case
    by (auto simp: canEmpty_lang Cons_eq_append_conv)
next
  case (Many r)
  then show ?case by (auto simp: star_Cons_iff)
qed auto

lemma test_whole_lang: "test_whole r s \<longleftrightarrow> s \<in> lang r"
  by (induction s arbitrary: r) (simp_all add: canEmpty_lang lang_after)

lemma test_start_lang: "test_start r s \<longleftrightarrow> (\<exists>p \<in> lang r. prefix p s)"
proof (induction s arbitrary: r)
  case Nil
  then show ?case by (simp add: canEmpty_lang)
next
  case (Cons c cs)
  show ?case
    by (auto simp: Cons canEmpty_lang lang_after prefix_Cons)
qed

lemma star_units: "w \<in> star {[c] | c. P c} \<longleftrightarrow> (\<forall>c \<in> set w. P c)"
proof
  assume "w \<in> star {[c] | c. P c}"
  then show "\<forall>c \<in> set w. P c" by (induction rule: star.induct) auto
next
  assume "\<forall>c \<in> set w. P c"
  then show "w \<in> star {[c] | c. P c}"
  proof (induction w)
    case Nil
    show ?case by (rule star_nil)
  next
    case (Cons a w)
    then have "[a] \<in> {[c] | c. P c}" "w \<in> star {[c] | c. P c}" by auto
    then have "[a] @ w \<in> star {[c] | c. P c}" by (rule star_app)
    then show ?case by simp
  qed
qed

lemma in_Cat_unit:
  assumes "\<And>u. u \<in> lang r \<longleftrightarrow> (\<exists>c. u = [c] \<and> P c)"
  shows "w \<in> lang (Cat r s) \<longleftrightarrow> (\<exists>c v. w = c # v \<and> P c \<and> v \<in> lang s)"
proof
  assume "w \<in> lang (Cat r s)"
  then obtain u v where "w = u @ v" "u \<in> lang r" "v \<in> lang s" by auto
  with assms show "\<exists>c v. w = c # v \<and> P c \<and> v \<in> lang s" by auto
next
  assume "\<exists>c v. w = c # v \<and> P c \<and> v \<in> lang s"
  then obtain c v where "w = [c] @ v" "P c" "v \<in> lang s" by auto
  moreover from \<open>P c\<close> have "[c] \<in> lang r" using assms by blast
  ultimately show "w \<in> lang (Cat r s)" unfolding lang.simps by blast
qed

lemma in_Cat_LitI:
  "w \<in> lang (Cat (LitI d) s) \<longleftrightarrow>
     (\<exists>c v. w = c # v \<and> canonicalize c = canonicalize d \<and> v \<in> lang s)"
  by (rule in_Cat_unit) auto

lemma in_Cat_Lit: "w \<in> lang (Cat (Lit d) s) \<longleftrightarrow> (\<exists>v. w = d # v \<and> v \<in> lang s)"
  by auto

lemma in_Cat_Cls:
  "w \<in> lang (Cat (Cls rs) s) \<longleftrightarrow> (\<exists>c v. w = c # v \<and> inCls c rs \<and> v \<in> lang s)"
  by (rule in_Cat_unit) auto

lemma in_Cat_Or: "w \<in> lang (Cat (Or a b) s) \<longleftrightarrow> w \<in> lang (Cat a s) \<or> w \<in> lang (Cat b s)"
  by auto

lemma in_Cat_Empty: "w \<in> lang (Cat Empty s) \<longleftrightarrow> w \<in> lang s"
  by auto

lemmas in_Cat = in_Cat_LitI in_Cat_Lit in_Cat_Cls in_Cat_Or in_Cat_Empty

lemma in_Cls: "w \<in> lang (Cls rs) \<longleftrightarrow> (\<exists>c. w = [c] \<and> inCls c rs)"
  by auto

lemma in_Cat_LitI_case:
  "w \<in> lang (Cat (LitI d) s) \<longleftrightarrow>
     (case w of [] \<Rightarrow> False | c # v \<Rightarrow> canonicalize c = canonicalize d \<and> v \<in> lang s)"
  unfolding in_Cat_LitI by (cases w) auto

lemma in_LitI_case:
  "w \<in> lang (LitI d) \<longleftrightarrow> (case w of [c] \<Rightarrow> canonicalize c = canonicalize d | _ \<Rightarrow> False)"
  by (auto split: list.splits)

section \<open>Code units\<close>

lemma code_inj: "code c = code d \<longleftrightarrow> c = d"
  by (simp add: code_def)

lemma code_lt: "code c < 256"
  by (simp add: code_def)

lemma code_char_of: "code (char_of n) = n mod 256"
  by (simp add: code_def)

lemma char_of_eq_code: "(char_of (n::nat) = c) = (n mod 256 = code c)"
  by (metis code_char_of code_def char_of_char)

lemma eq_char_of_code: "(c = char_of (n::nat)) = (code c = n mod 256)"
  by (metis code_char_of code_def char_of_char)

lemma canon_lower:
  assumes "code d < 128" "code d < 65 \<or> 90 < code d"
  shows "canonicalize c = canonicalize d \<longleftrightarrow> lowerChar c = d"
  using code_lt[of c] assms
  by (auto simp: canonicalize_def lowerChar_def code_inj[symmetric] code_char_of)

lemma canon_scheme_chars:
  "canonicalize c = canonicalize CHR ''h'' \<longleftrightarrow> lowerChar c = CHR ''h''"
  "canonicalize c = canonicalize CHR ''t'' \<longleftrightarrow> lowerChar c = CHR ''t''"
  "canonicalize c = canonicalize CHR ''p'' \<longleftrightarrow> lowerChar c = CHR ''p''"
  "canonicalize c = canonicalize CHR ''s'' \<longleftrightarrow> lowerChar c = CHR ''s''"
  "canonicalize c = canonicalize CHR '':'' \<longleftrightarrow> lowerChar c = CHR '':''"
  "canonicalize c = canonicalize CHR ''/'' \<longleftrightarrow> lowerChar c = CHR ''/''"
  by (rule canon_lower; simp add: code_def)+

lemmas rx_eval = code_def canonicalize_def lowerChar_def toLowerCase_def
  opt_def plus_rx_def times3_def digit_def inCls_def char_of_eq_code eq_char_of_code
  schemeRx_def ipv4Rx_def octetRx_def domainRx_def startsWith_def endsWith_def

section \<open>The three tests of the normalizer\<close>

lemma lang_scheme:
  "p \<in> lang schemeRx \<longleftrightarrow> toLowerCase p = ''http://'' \<or> toLowerCase p = ''https://''"
  unfolding schemeRx_def opt_def toLowerCase_def
  by (simp only: in_Cat_LitI_case in_Cat_Or in_Cat_Empty in_LitI_case canon_scheme_chars)
     (auto split: list.splits)

lemma prefix_map_iff: "prefix q (map f s) \<longleftrightarrow> (\<exists>p. prefix p s \<and> map f p = q)"
proof
  assume "prefix q (map f s)"
  then obtain r where "map f s = q @ r" by (auto simp: prefix_def)
  then have "map f (take (length q) s) = q"
    by (metis append_eq_conv_conj take_map)
  then show "\<exists>p. prefix p s \<and> map f p = q"
    using take_is_prefix by blast
next
  assume "\<exists>p. prefix p s \<and> map f p = q"
  then show "prefix q (map f s)" by (auto simp: prefix_def)
qed

lemma ex_or_prefix:
  "(\<exists>p. (f p = A \<or> f p = B) \<and> prefix p raw) \<longleftrightarrow>
   (\<exists>p. prefix p raw \<and> f p = A) \<or> (\<exists>p. prefix p raw \<and> f p = B)"
  by blast

lemma scheme_test: "test_start schemeRx raw = spec_has_scheme raw"
proof -
  have "test_start schemeRx raw \<longleftrightarrow> (\<exists>p. p \<in> lang schemeRx \<and> prefix p raw)"
    unfolding test_start_lang by blast
  also have "\<dots> \<longleftrightarrow>
      (\<exists>p. (map lowerChar p = ''http://'' \<or> map lowerChar p = ''https://'') \<and> prefix p raw)"
    by (simp only: lang_scheme toLowerCase_def)
  also have "\<dots> \<longleftrightarrow> spec_has_scheme raw"
    unfolding spec_has_scheme_def toLowerCase_def prefix_map_iff by (rule ex_or_prefix)
  finally show ?thesis .
qed

lemma includes_sublist: "includes_str s p \<longleftrightarrow> sublist p s"
  by (induction s) (auto simp: sublist_Cons_right)

lemma endsWith_suffix: "endsWith s p \<longleftrightarrow> suffix p s"
  by (simp add: endsWith_def suffix_to_prefix)

lemma includes_single: "includes_str s [c] \<longleftrightarrow> c \<in> set s"
  by (induction s) auto

lemma domain_class:
  "inCls c [(CHR ''a'', CHR ''z''), (CHR ''0'', CHR ''9''), (CHR ''.'', CHR ''.''), (CHR ''-'', CHR ''-'')]
     \<longleftrightarrow> isHostChar c"
proof -
  have "c = CHR ''.'' \<longleftrightarrow> code c = 46" "c = CHR ''-'' \<longleftrightarrow> code c = 45"
    by (simp_all add: code_inj[symmetric]) (simp_all add: code_def)
  then show ?thesis
    by (auto simp: inCls_def isHostChar_def isLowerChar_def isDigitChar_def) (simp_all add: code_def)
qed

lemma domain_test: "test_whole domainRx h \<longleftrightarrow> h \<noteq> [] \<and> (\<forall>c \<in> set h. isHostChar c)"
proof -
  have "h \<in> lang domainRx \<longleftrightarrow> (\<exists>c v. h = c # v \<and> isHostChar c \<and> (\<forall>x \<in> set v. isHostChar x))"
    unfolding domainRx_def plus_rx_def in_Cat_Cls domain_class
    by (simp add: star_units domain_class)
  then show ?thesis
    by (cases h) (auto simp: test_whole_lang)
qed

lemma digit_class:
  "inCls c [(CHR ''0'', CHR ''9'')] \<longleftrightarrow> isDigitChar c"
  "inCls c [(CHR ''0'', CHR ''5'')] \<Longrightarrow> isDigitChar c"
  "inCls c [(CHR ''0'', CHR ''4'')] \<Longrightarrow> isDigitChar c"
  by (auto simp: inCls_def isDigitChar_def code_def)

lemma digit_chars:
  "isDigitChar CHR ''1''" "isDigitChar CHR ''2''" "isDigitChar CHR ''5''"
  "\<not> isDigitChar CHR ''.''"
  by (simp_all add: isDigitChar_def code_def)

lemma octet_digits: "w \<in> lang octetRx \<Longrightarrow> digits w"
  unfolding octetRx_def opt_def digit_def
  apply (simp only: lang.simps(7) Un_iff in_Cat in_Cls)
  apply (auto simp: digits_def digit_class digit_chars)
  done

lemma ipv4_shape:
  assumes "test_whole ipv4Rx h"
  shows "\<exists>a b c d. h = a @ CHR ''.'' # b @ CHR ''.'' # c @ CHR ''.'' # d \<and>
           digits a \<and> digits b \<and> digits c \<and> digits d"
proof -
  from assms have "h \<in> lang ipv4Rx" by (simp add: test_whole_lang)
  then obtain a r1 where 1: "h = a @ r1" "a \<in> lang octetRx"
    "r1 \<in> lang (times3 (Cat (Lit CHR ''.'') octetRx))"
    unfolding ipv4Rx_def by auto
  from 1(3) obtain b c d where 2: "r1 = CHR ''.'' # b @ CHR ''.'' # c @ CHR ''.'' # d"
    "b \<in> lang octetRx" "c \<in> lang octetRx" "d \<in> lang octetRx"
    unfolding times3_def by auto
  from 1 2 have "h = a @ CHR ''.'' # b @ CHR ''.'' # c @ CHR ''.'' # d" by simp
  moreover have "digits a" "digits b" "digits c" "digits d"
    using 1(2) 2(2-4) by (simp_all add: octet_digits)
  ultimately show ?thesis by blast
qed

lemma no_dots_skip:
  "\<forall>c \<in> set d. c \<noteq> CHR ''.'' \<Longrightarrow> includes_str (d @ t) ''..'' = includes_str t ''..''"
  by (induction d) auto

lemma dot_then_label:
  "d \<noteq> [] \<Longrightarrow> \<forall>c \<in> set d. c \<noteq> CHR ''.'' \<Longrightarrow>
     includes_str (CHR ''.'' # d @ t) ''..'' = includes_str t ''..''"
  by (cases d) (auto simp: no_dots_skip)

lemma digits_no_dot: "digits d \<Longrightarrow> d \<noteq> [] \<and> (\<forall>c \<in> set d. c \<noteq> CHR ''.'')"
  by (auto simp: digits_def digit_chars)

lemma digits_host: "digits d \<Longrightarrow> \<forall>c \<in> set d. isHostChar c"
  by (auto simp: digits_def isHostChar_def)

lemma dotted_quad_domain:
  assumes "digits a" "digits b" "digits c" "digits d"
    and h: "h = a @ CHR ''.'' # b @ CHR ''.'' # c @ CHR ''.'' # d"
  shows "test_whole domainRx h" "\<not> startsWith h ''.''" "\<not> endsWith h ''.''"
    "\<not> includes_str h ''..''" "includes_str h ''.''"
proof -
  note nd = assms(1-4)[THEN digits_no_dot]
  have dot: "isHostChar CHR ''.''" by (simp add: isHostChar_def)
  show "test_whole domainRx h"
    using assms(1-4)[THEN digits_host] dot nd by (auto simp: domain_test h)
  show "\<not> startsWith h ''.''"
    using nd(1) by (cases a) (auto simp: startsWith_def h)
  show "\<not> endsWith h ''.''"
    using nd(4) by (cases d rule: rev_cases) (auto simp: endsWith_def h)
  have "includes_str h ''..'' = includes_str (CHR ''.'' # b @ CHR ''.'' # c @ CHR ''.'' # d) ''..''"
    unfolding h by (rule no_dots_skip) (use nd(1) in blast)
  also have "\<dots> = includes_str (CHR ''.'' # c @ CHR ''.'' # d) ''..''"
    by (rule dot_then_label) (use nd(2) in blast)+
  also have "\<dots> = includes_str (CHR ''.'' # d) ''..''"
    by (rule dot_then_label) (use nd(3) in blast)+
  also have "\<dots> = includes_str [] ''..''"
    using nd(4) dot_then_label[of d "[]"] by simp
  finally show "\<not> includes_str h ''..''" by simp
  show "includes_str h ''.''" by (simp add: includes_single h)
qed

lemma join_Cons: "join d ((c # p) # ps) = c # join d (p # ps)"
  by (cases ps) auto

lemma splitOn_nonempty: "splitOn d s \<noteq> []"
  by (induction s) (auto split: list.splits)

lemma join_splitOn: "join d (splitOn d s) = s"
proof (induction s)
  case Nil
  show ?case by simp
next
  case (Cons c cs)
  show ?case
  proof (cases "c = d")
    case True
    with Cons splitOn_nonempty[of d cs] show ?thesis
      by (cases "splitOn d cs") auto
  next
    case False
    with Cons splitOn_nonempty[of d cs] show ?thesis
      by (cases "splitOn d cs") (auto simp: join_Cons)
  qed
qed

lemma spec_ipv4_shape:
  assumes "spec_ipv4 h"
  shows "\<exists>a b c d. h = a @ CHR ''.'' # b @ CHR ''.'' # c @ CHR ''.'' # d \<and>
           digits a \<and> digits b \<and> digits c \<and> digits d"
proof -
  from assms have len: "length (splitOn CHR ''.'' h) = 4"
    and all: "\<forall>p \<in> set (splitOn CHR ''.'' h). spec_octet p"
    by (simp_all add: spec_ipv4_def Let_def)
  from len obtain a b c d where ps: "splitOn CHR ''.'' h = [a, b, c, d]"
    by (auto simp: length_Suc_conv eval_nat_numeral)
  with all have oct: "spec_octet a" "spec_octet b" "spec_octet c" "spec_octet d"
    by simp_all
  have "h = join CHR ''.'' [a, b, c, d]" using join_splitOn[of "CHR ''.''" h] ps by simp
  with oct show ?thesis by (auto simp: digits_def spec_octet_def)
qed

lemma normalizeUrl_alt:
  "normalizeUrl newURL input =
     (case newURL (if test_start schemeRx input then input else ''https://'' @ input) of
        None \<Rightarrow> None
      | Some parsed \<Rightarrow>
          if (protocol parsed = ''http:'' \<or> protocol parsed = ''https:'') \<and>
             host_accepted (toLowerCase (hostname parsed))
          then Some (href parsed) else None)"
  by (auto simp: normalizeUrl_def host_accepted_def Let_def split: option.splits)

lemma domain_pattern_spec:
  "(test_whole domainRx h \<and> \<not> startsWith h ''.'' \<and> \<not> endsWith h ''.'' \<and>
      \<not> includes_str h ''..'') \<and> includes_str h ''.'' \<longleftrightarrow> spec_domain h"
  unfolding domain_test startsWith_def endsWith_suffix includes_sublist[symmetric]
    includes_single spec_domain_def isHostChar_def
  by auto

lemma dotted_quad_spec:
  assumes "\<exists>a b c d. h = a @ CHR ''.'' # b @ CHR ''.'' # c @ CHR ''.'' # d \<and>
             digits a \<and> digits b \<and> digits c \<and> digits d"
  shows "spec_domain h"
proof -
  from assms obtain a b c d where h: "h = a @ CHR ''.'' # b @ CHR ''.'' # c @ CHR ''.'' # d"
    and d: "digits a" "digits b" "digits c" "digits d" by (elim exE conjE)
  note q = dotted_quad_domain[OF d h]
  show ?thesis
    unfolding domain_pattern_spec[symmetric] using q by (intro conjI)
qed

lemma host_accepted_spec: "host_accepted h = spec_valid_host h"
proof -
  have 1: "test_whole ipv4Rx h \<Longrightarrow> spec_domain h"
    by (rule dotted_quad_spec) (rule ipv4_shape)
  have 2: "spec_ipv4 h \<Longrightarrow> spec_domain h"
    by (rule dotted_quad_spec) (rule spec_ipv4_shape)
  show ?thesis
    unfolding host_accepted_def spec_valid_host_def domain_pattern_spec
    using 1 2 by auto
qed

lemma normalizeUrl_refines: "normalizeUrl newURL x = spec_normalize newURL x"
  by (simp add: normalizeUrl_alt spec_normalize_def scheme_test host_accepted_spec Let_def conj_commute
      split: option.splits)

lemma scheme_prefix:
  "prefix ''http://'' y \<or> prefix ''https://'' y \<Longrightarrow> test_start schemeRx y"
  unfolding scheme_test spec_has_scheme_def
  by (auto simp: prefix_def toLowerCase_def lowerChar_def code_def)

lemma sample_reparses: "reparses sample_parser"
  unfolding reparses_def sample_parser_def
  by (auto split: if_splits)

section \<open>Claims about the normalizer\<close>

text \<open>
  C1. For every input \<open>x\<close> and every parsing primitive, \<open>normalizeUrl\<close> computes what the
  algorithm of the specification computes: \<open>https://\<close> is prepended unless \<open>x\<close> starts
  with \<open>http://\<close> or \<open>https://\<close> in any case; a parse failure is invalid; otherwise the
  result is valid exactly when the scheme is http or https and the lower-cased host name is
  \<open>localhost\<close>, a dotted IPv4 address of four octets from 0 to 255, or a name of lower-case
  letters, digits, hyphens and dots with no dot at either end, no two dots in a row and at
  least one dot. With the answers of the platform's parser on the five example strings:
  \<open>example.com\<close> gives \<open>https://example.com/\<close>, \<open>ftp://example.com\<close> (which is parsed as
  \<open>https://ftp://example.com\<close>, host \<open>ftp\<close>) and \<open>http://..bad..\<close> are invalid,
  \<open>192.168.1.1\<close> and \<open>localhost:3000\<close> are valid.
\<close>

theorem normalizeUrl_follows_spec:
  assumes "newURL ''https://example.com'' =
             Some \<lparr>protocol = ''https:'', hostname = ''example.com'', href = ''https://example.com/''\<rparr>"
    and "\<forall>u. newURL ''https://ftp://example.com'' = Some u \<longrightarrow> hostname u = ''ftp''"
    and "\<forall>u. newURL ''http://..bad..'' = Some u \<longrightarrow> hostname u = ''..bad..''"
    and "newURL ''https://192.168.1.1'' =
             Some \<lparr>protocol = ''https:'', hostname = ''192.168.1.1'', href = ''https://192.168.1.1/''\<rparr>"
    and "newURL ''https://localhost:3000'' =
             Some \<lparr>protocol = ''https:'', hostname = ''localhost'', href = ''https://localhost:3000/''\<rparr>"
  shows "normalizeUrl newURL x = spec_normalize newURL x \<and>
         normalizeUrl newURL ''example.com'' = Some ''https://example.com/'' \<and>
         normalizeUrl newURL ''ftp://example.com'' = None \<and>
         normalizeUrl newURL ''http://..bad..'' = None \<and>
         normalizeUrl newURL ''192.168.1.1'' = Some ''https://192.168.1.1/'' \<and>
         normalizeUrl newURL ''localhost:3000'' = Some ''https://localhost:3000/''"
proof (intro conjI)
  show "normalizeUrl newURL x = spec_normalize newURL x" by (rule normalizeUrl_refines)
  show "normalizeUrl newURL ''example.com'' = Some ''https://example.com/''"
    using assms(1) by (simp add: normalizeUrl_def rx_eval)
  show "normalizeUrl newURL ''ftp://example.com'' = None"
    using assms(2) by (simp add: normalizeUrl_def rx_eval split: option.splits)
  show "normalizeUrl newURL ''http://..bad..'' = None"
    using assms(3) by (simp add: normalizeUrl_def rx_eval split: option.splits)
  show "normalizeUrl newURL ''192.168.1.1'' = Some ''https://192.168.1.1/''"
    using assms(4) by (simp add: normalizeUrl_def rx_eval)
  show "normalizeUrl newURL ''localhost:3000'' = Some ''https://localhost:3000/''"
    using assms(5) by (simp add: normalizeUrl_def rx_eval)
qed

theorem normalizeUrl_follows_spec_witness:
  "normalizeUrl sample_parser ''HTTPS://example.com'' =
     spec_normalize sample_parser ''HTTPS://example.com'' \<and>
   normalizeUrl sample_parser ''example.com'' = Some ''https://example.com/'' \<and>
   normalizeUrl sample_parser ''ftp://example.com'' = None \<and>
   normalizeUrl sample_parser ''http://..bad..'' = None \<and>
   normalizeUrl sample_parser ''192.168.1.1'' = Some ''https://192.168.1.1/'' \<and>
   normalizeUrl sample_parser ''localhost:3000'' = Some ''https://localhost:3000/''"
  by (rule normalizeUrl_follows_spec) (simp_all add: sample_parser_def)

text \<open>
  C2. \<open>normalizeUrl\<close> is idempotent on its valid results: if \<open>normalizeUrl x\<close> is the URL
  \<open>y\<close>, then \<open>normalizeUrl y\<close> is \<open>y\<close> again. The canonical form is the work of the parsing
  primitive, which the specification requires to be idempotent (\<open>reparses\<close>).
\<close>

theorem normalizeUrl_idempotent:
  assumes "reparses newURL" and "normalizeUrl newURL x = Some y"
  shows "normalizeUrl newURL y = Some y"
proof -
  let ?w = "if test_start schemeRx x then x else ''https://'' @ x"
  from assms(2) obtain u where u: "newURL ?w = Some u"
    and http: "protocol u = ''http:'' \<or> protocol u = ''https:''"
    and host: "host_accepted (toLowerCase (hostname u))" and y: "y = href u"
    by (auto simp: normalizeUrl_alt split: option.splits if_splits)
  from assms(1) u http have again: "newURL y = Some u" and pre: "prefix (protocol u @ ''//'') y"
    unfolding reparses_def y by blast+
  from pre http have "test_start schemeRx y" by (intro scheme_prefix) auto
  with again http host y show ?thesis by (simp add: normalizeUrl_alt)
qed

theorem normalizeUrl_idempotent_witness:
  "reparses sample_parser \<and>
   normalizeUrl sample_parser ''example.com'' = Some ''https://example.com/'' \<and>
   normalizeUrl sample_parser ''https://example.com/'' = Some ''https://example.com/''"
proof -
  have 1: "normalizeUrl sample_parser ''example.com'' = Some ''https://example.com/''"
    by (simp add: normalizeUrl_def sample_parser_def rx_eval)
  from normalizeUrl_idempotent[OF sample_reparses 1] sample_reparses 1 show ?thesis by simp
qed


end
